theory Spec2Isabelle
  imports
    Complex_Main
    "HOL-Library.Char_ord"
    "HOL-Library.List_Lexorder"
    "HOL-Library.Multiset"
begin

section \<open>JavaScript values used by App.jsx\<close>

text \<open>
  Strings are \<^typ>\<open>string\<close>; text outside ASCII is held as its UTF-8 bytes. The order on
  strings is the lexicographic order on character codes, which is what the JavaScript
  operators \<open><=\<close> and \<open>>=\<close> compute on the date strings (\<open>YYYY-MM-DD\<close>) and time strings
  (\<open>HH:MM\<close>) of the application.

  Numbers that the code computes with (amounts, exchange rates, coordinates) are exact
  rationals: the model follows the arithmetic the code writes down, not the rounding
  error of IEEE doubles. \<open>NaN\<close> is \<open>None\<close> where the code tests for it.
\<close>

text \<open>A coordinate field of an activity: \<open>undefined\<close>, \<open>null\<close> or a number.\<close>

datatype coord = Undefined | Null | Number rat

text \<open>JavaScript truthiness of such a value, as \<open>act.lat && act.lng\<close> tests it.\<close>

fun truthy :: "coord \<Rightarrow> bool" where
  "truthy Undefined = False"
| "truthy Null = False"
| "truthy (Number x) = (x \<noteq> 0)"

text \<open>
  \<open>String.prototype.localeCompare\<close>: negative, zero or positive as the first string is
  before, equal to or after the second. The application compares only date strings with
  date strings and time strings with time strings; on these the collation order is the
  lexicographic one.
\<close>

definition localeCompare :: "string \<Rightarrow> string \<Rightarrow> int" where
  "localeCompare a b = (if a < b then - 1 else if a = b then 0 else 1)"

subsection \<open>String.prototype.trim\<close>

text \<open>
  The white space and line terminator code points that \<open>trim\<close> strips, in UTF-8:
  U+0009 to U+000D, U+0020, U+00A0, U+1680, U+2000 to U+200A, U+2028, U+2029, U+202F,
  U+205F, U+3000 and U+FEFF.
\<close>

definition whiteSpace :: "string list" where
  "whiteSpace =
     [
      [CHR 0x09], [CHR 0x0A], [CHR 0x0B], [CHR 0x0C], [CHR 0x0D], [CHR 0x20],
      [CHR 0xC2, CHR 0xA0], [CHR 0xE1, CHR 0x9A, CHR 0x80], [CHR 0xE2, CHR 0x80, CHR 0x80],
      [CHR 0xE2, CHR 0x80, CHR 0x81], [CHR 0xE2, CHR 0x80, CHR 0x82],
      [CHR 0xE2, CHR 0x80, CHR 0x83], [CHR 0xE2, CHR 0x80, CHR 0x84],
      [CHR 0xE2, CHR 0x80, CHR 0x85], [CHR 0xE2, CHR 0x80, CHR 0x86],
      [CHR 0xE2, CHR 0x80, CHR 0x87], [CHR 0xE2, CHR 0x80, CHR 0x88],
      [CHR 0xE2, CHR 0x80, CHR 0x89], [CHR 0xE2, CHR 0x80, CHR 0x8A],
      [CHR 0xE2, CHR 0x80, CHR 0xA8], [CHR 0xE2, CHR 0x80, CHR 0xA9],
      [CHR 0xE2, CHR 0x80, CHR 0xAF], [CHR 0xE2, CHR 0x81, CHR 0x9F],
      [CHR 0xE3, CHR 0x80, CHR 0x80], [CHR 0xEF, CHR 0xBB, CHR 0xBF]
     ]"

text \<open>\<open>stripStart ws s\<close> removes from the front of \<open>s\<close> every leading occurrence of a
  member of \<open>ws\<close>.\<close>

function stripStart :: "string list \<Rightarrow> string \<Rightarrow> string" where
  "stripStart ws s =
     (case find (\<lambda>w. w \<noteq> [] \<and> take (length w) s = w) ws of
        None \<Rightarrow> s
      | Some w \<Rightarrow> stripStart ws (drop (length w) s))"
  by pat_completeness auto
termination
proof (relation "measure (\<lambda>(ws, s). length s)")
  show "wf (measure (\<lambda>(ws, s). length s))"
    by simp
next
  fix ws :: "string list" and s w :: string
  assume "find (\<lambda>w. w \<noteq> [] \<and> take (length w) s = w) ws = Some w"
  then have w: "w \<noteq> []" "take (length w) s = w"
    by (auto simp: find_Some_iff)
  then have "s \<noteq> []"
    by auto
  with w(1) show "((ws, drop (length w) s), (ws, s)) \<in> measure (\<lambda>(ws, s). length s)"
    by simp
qed

declare stripStart.simps [simp del]

definition trim :: "string \<Rightarrow> string" where
  "trim s = rev (stripStart (map rev whiteSpace) (rev (stripStart whiteSpace s)))"

subsection \<open>Array.prototype.sort\<close>

text \<open>
  \<open>Array.prototype.sort\<close> with a comparator is a stable sort (ECMAScript 2019). A
  comparator result \<open>NaN\<close> (here \<open>None\<close>) counts as \<open>+0\<close>, as \<open>SortCompare\<close> prescribes.
  The model is the stable insertion sort driven by the comparator.
\<close>

definition SortCompare :: "('a \<Rightarrow> 'a \<Rightarrow> int option) \<Rightarrow> 'a \<Rightarrow> 'a \<Rightarrow> int" where
  "SortCompare cmp x y = (case cmp x y of None \<Rightarrow> 0 | Some v \<Rightarrow> v)"

fun insert_cmp :: "('a \<Rightarrow> 'a \<Rightarrow> int option) \<Rightarrow> 'a \<Rightarrow> 'a list \<Rightarrow> 'a list" where
  "insert_cmp cmp x [] = [x]"
| "insert_cmp cmp x (y # ys) =
     (if SortCompare cmp x y \<le> 0 then x # y # ys else y # insert_cmp cmp x ys)"

fun array_sort :: "('a \<Rightarrow> 'a \<Rightarrow> int option) \<Rightarrow> 'a list \<Rightarrow> 'a list" where
  "array_sort cmp [] = []"
| "array_sort cmp (x # xs) = insert_cmp cmp x (array_sort cmp xs)"

text \<open>\<open>Array.prototype.findIndex\<close>; the result \<open>-1\<close> is \<open>None\<close>.\<close>

fun findIndex :: "('a \<Rightarrow> bool) \<Rightarrow> 'a list \<Rightarrow> nat option" where
  "findIndex P [] = None"
| "findIndex P (x # xs) = (if P x then Some 0 else map_option Suc (findIndex P xs))"

section \<open>Itinerary store\<close>

text \<open>
  Field \<open>f\<close> of an activity is \<open>a_f\<close>, of a day bucket \<open>d_f\<close>, of the object that
  \<open>ActivityForm.handleSubmit\<close> passes to \<open>onSave\<close> \<open>f_f\<close>. The activities of
  \<open>initialItinerary\<close> have no \<open>date\<close> field; those saved through the form keep the one of
  the submitted object.
\<close>

record activity =
  a_id :: string
  a_date :: "string option"
  a_time :: string
  a_icon :: string
  a_description :: string
  a_location :: string
  a_lat :: coord
  a_lng :: coord

record day =
  d_date :: string
  d_activities :: "activity list"

record activity_form =
  f_id :: string
  f_date :: string
  f_time :: string
  f_icon :: string
  f_description :: string
  f_location :: string
  f_lat :: coord
  f_lng :: coord
  f_originalDate :: "string option"

text \<open>\<open>const { originalDate, ...activityWithoutOriginalDate } = activity\<close>\<close>

definition withoutOriginalDate :: "activity_form \<Rightarrow> activity" where
  "withoutOriginalDate activity =
     \<lparr>a_id = f_id activity, a_date = Some (f_date activity), a_time = f_time activity,
      a_icon = f_icon activity, a_description = f_description activity,
      a_location = f_location activity, a_lat = f_lat activity, a_lng = f_lng activity\<rparr>"

text \<open>The comparators \<open>(a, b) => a.date.localeCompare(b.date)\<close> and
  \<open>(a, b) => a.time.localeCompare(b.time)\<close>.\<close>

definition byDate :: "day \<Rightarrow> day \<Rightarrow> int option" where
  "byDate a b = Some (localeCompare (d_date a) (d_date b))"

definition byTime :: "activity \<Rightarrow> activity \<Rightarrow> int option" where
  "byTime a b = Some (localeCompare (a_time a) (a_time b))"

text \<open>
  The first step of the date-move branch and the whole of \<open>handleActivityDelete\<close>:
  drop the activity \<open>i\<close> from every bucket dated \<open>date\<close>, then drop the empty buckets.
\<close>

definition removeFromDay :: "string \<Rightarrow> string option \<Rightarrow> day list \<Rightarrow> day list" where
  "removeFromDay i date prev =
     filter (\<lambda>day. length (d_activities day) > 0)
       (map (\<lambda>day. if Some (d_date day) = date
                    then day\<lparr>d_activities := filter (\<lambda>a. a_id a \<noteq> i) (d_activities day)\<rparr>
                    else day) prev)"

text \<open>
  The updater that \<open>handleActivitySave\<close> passes to \<open>setItinerary\<close>. \<open>activity.originalDate\<close>
  is truthy when it is a non-empty string.
\<close>

definition handleActivitySave :: "activity_form \<Rightarrow> bool \<Rightarrow> day list \<Rightarrow> day list" where
  "handleActivitySave activity isEdit prev =
     (if isEdit \<and> f_originalDate activity \<noteq> None \<and> f_originalDate activity \<noteq> Some []
         \<and> f_originalDate activity \<noteq> Some (f_date activity)
      then
        (let newState = removeFromDay (f_id activity) (f_originalDate activity) prev;
             activityWithoutOriginalDate = withoutOriginalDate activity
         in case findIndex (\<lambda>day. d_date day = f_date activity) newState of
              None \<Rightarrow>
                array_sort byDate
                  (newState @ [\<lparr>d_date = f_date activity,
                                d_activities = [activityWithoutOriginalDate]\<rparr>])
            | Some newDayIndex \<Rightarrow>
                (let replaced = map (\<lambda>a. if a_id a = f_id activity
                                          then activityWithoutOriginalDate else a)
                                  (d_activities (newState ! newDayIndex));
                     added = (if \<not> list_ex (\<lambda>a. a_id a = f_id activity) replaced
                              then replaced @ [activityWithoutOriginalDate] else replaced)
                 in newState[newDayIndex :=
                      (newState ! newDayIndex)\<lparr>d_activities := array_sort byTime added\<rparr>]))
      else
        (let activityWithoutOriginalDate = withoutOriginalDate activity
         in case findIndex (\<lambda>day. d_date day = f_date activity) prev of
              None \<Rightarrow>
                array_sort byDate
                  (prev @ [\<lparr>d_date = f_date activity,
                            d_activities = [activityWithoutOriginalDate]\<rparr>])
            | Some dayIndex \<Rightarrow>
                (let updatedActivities =
                       (if isEdit
                        then map (\<lambda>a. if a_id a = f_id activity
                                       then activityWithoutOriginalDate else a)
                               (d_activities (prev ! dayIndex))
                        else d_activities (prev ! dayIndex) @ [activityWithoutOriginalDate])
                 in prev[dayIndex :=
                      (prev ! dayIndex)\<lparr>d_activities := array_sort byTime updatedActivities\<rparr>])))"

text \<open>
  \<open>handleActivityDelete\<close>; \<open>confirmed\<close> is the answer of \<open>window.confirm\<close>. Without it the
  updater is not called.
\<close>

definition handleActivityDelete :: "string \<Rightarrow> string \<Rightarrow> bool \<Rightarrow> day list \<Rightarrow> day list" where
  "handleActivityDelete i date confirmed prev =
     (if confirmed then removeFromDay i (Some date) prev else prev)"

text \<open>\<open>initialItinerary\<close>, the state the application starts with.\<close>

definition a1 :: activity where
  "a1 =
     \<lparr>a_id = ''a1'', a_date = None, a_time = ''09:00'', a_icon = ''Plane'',
      a_description =
        [CHR 0xE6, CHR 0xA1, CHR 0x83, CHR 0xE5, CHR 0x9C, CHR 0x92, CHR 0xE6, CHR 0xA9,
        CHR 0x9F, CHR 0xE5, CHR 0xA0, CHR 0xB4, CHR 0xE5, CHR 0x87, CHR 0xBA, CHR 0xE7,
        CHR 0x99, CHR 0xBC, CHR 0x20, CHR 0x28, CHR 0x54, CHR 0x50, CHR 0x45, CHR 0x29],
      a_location =
        [CHR 0xE6, CHR 0xA1, CHR 0x83, CHR 0xE5, CHR 0x9C, CHR 0x92, CHR 0xE6, CHR 0xA9,
        CHR 0x9F, CHR 0xE5, CHR 0xA0, CHR 0xB4],
      a_lat = Number (250797 / 10000), a_lng = Number (1212342 / 10000)\<rparr>"

definition a2 :: activity where
  "a2 =
     \<lparr>a_id = ''a2'', a_date = None, a_time = ''12:00'', a_icon = ''MapPin'',
      a_description =
        [CHR 0xE6, CHR 0x8A, CHR 0xB5, CHR 0xE9, CHR 0x81, CHR 0x94, CHR 0xE7, CHR 0x9B,
        CHR 0xAE, CHR 0xE7, CHR 0x9A, CHR 0x84, CHR 0xE5, CHR 0x9C, CHR 0xB0, CHR 0xE4,
        CHR 0xB8, CHR 0xA6, CHR 0xE8, CHR 0xBE, CHR 0xA6, CHR 0xE7, CHR 0x90, CHR 0x86,
        CHR 0xE5, CHR 0x85, CHR 0xA5, CHR 0xE4, CHR 0xBD, CHR 0x8F],
      a_location =
        [CHR 0xE5, CHR 0x8F, CHR 0xB0, CHR 0xE5, CHR 0x8C, CHR 0x97, CHR 0xE8, CHR 0xBB,
        CHR 0x8A, CHR 0xE7, CHR 0xAB, CHR 0x99],
      a_lat = Number (250478 / 10000), a_lng = Number (1215170 / 10000)\<rparr>"

definition a3 :: activity where
  "a3 =
     \<lparr>a_id = ''a3'', a_date = None, a_time = ''19:00'', a_icon = ''Utensils'',
      a_description =
        [CHR 0xE5, CHR 0xA4, CHR 0x9C, CHR 0xE5, CHR 0xB8, CHR 0x82, CHR 0xE8, CHR 0xA7,
        CHR 0x80, CHR 0xE5, CHR 0x85, CHR 0x89, CHR 0xE8, CHR 0x88, CHR 0x87, CHR 0xE6,
        CHR 0x99, CHR 0x9A, CHR 0xE9, CHR 0xA4, CHR 0x90],
      a_location =
        [CHR 0xE5, CHR 0xA3, CHR 0xAB, CHR 0xE6, CHR 0x9E, CHR 0x97, CHR 0xE5, CHR 0xA4,
        CHR 0x9C, CHR 0xE5, CHR 0xB8, CHR 0x82],
      a_lat = Number (250878 / 10000), a_lng = Number (1215241 / 10000)\<rparr>"

definition a4 :: activity where
  "a4 =
     \<lparr>a_id = ''a4'', a_date = None, a_time = ''09:30'', a_icon = ''MapPin'',
      a_description =
        [CHR 0xE5, CHR 0x8F, CHR 0x83, CHR 0xE8, CHR 0xA7, CHR 0x80, CHR 0xE6, CHR 0xAD,
        CHR 0xB7, CHR 0xE5, CHR 0x8F, CHR 0xB2, CHR 0xE5, CHR 0x8D, CHR 0x9A, CHR 0xE7,
        CHR 0x89, CHR 0xA9, CHR 0xE9, CHR 0xA4, CHR 0xA8],
      a_location =
        [CHR 0xE6, CHR 0x95, CHR 0x85, CHR 0xE5, CHR 0xAE, CHR 0xAE, CHR 0xE5, CHR 0x8D,
        CHR 0x9A, CHR 0xE7, CHR 0x89, CHR 0xA9, CHR 0xE9, CHR 0x99, CHR 0xA2],
      a_lat = Number (251024 / 10000), a_lng = Number (1215485 / 10000)\<rparr>"

definition a5 :: activity where
  "a5 =
     \<lparr>a_id = ''a5'', a_date = None, a_time = ''13:00'', a_icon = ''ShoppingBag'',
      a_description =
        [CHR 0xE5, CHR 0xB8, CHR 0x82, CHR 0xE5, CHR 0x8D, CHR 0x80, CHR 0xE8, CHR 0xB3,
        CHR 0xBC, CHR 0xE7, CHR 0x89, CHR 0xA9, CHR 0xE5, CHR 0x8D, CHR 0x80, CHR 0xE8,
        CHR 0x87, CHR 0xAA, CHR 0xE7, CHR 0x94, CHR 0xB1, CHR 0xE6, CHR 0xB4, CHR 0xBB,
        CHR 0xE5, CHR 0x8B, CHR 0x95],
      a_location =
        [CHR 0xE4, CHR 0xBF, CHR 0xA1, CHR 0xE7, CHR 0xBE, CHR 0xA9, CHR 0xE5, CHR 0x8D,
        CHR 0x80],
      a_lat = Number (250339 / 10000), a_lng = Number (1215645 / 10000)\<rparr>"

definition a6 :: activity where
  "a6 =
     \<lparr>a_id = ''a6'', a_date = None, a_time = ''18:30'', a_icon = ''Utensils'',
      a_description =
        [CHR 0xE9, CHR 0xAB, CHR 0x98, CHR 0xE7, CHR 0xB4, CHR 0x9A, CHR 0xE6, CHR 0x99,
        CHR 0x9A, CHR 0xE9, CHR 0xA4, CHR 0x90, CHR 0xE9, CHR 0xAB, CHR 0x94, CHR 0xE9,
        CHR 0xA9, CHR 0x97],
      a_location =
        [CHR 0xE5, CHR 0x8F, CHR 0xB0, CHR 0xE5, CHR 0x8C, CHR 0x97, CHR 0x31, CHR 0x30,
        CHR 0x31],
      a_lat = Number (250339 / 10000), a_lng = Number (1215645 / 10000)\<rparr>"

definition initialItinerary :: "day list" where
  "initialItinerary =
     [\<lparr>d_date = ''2025-11-05'', d_activities = [a1, a2, a3]\<rparr>,
      \<lparr>d_date = ''2025-11-06'', d_activities = [a4, a5, a6]\<rparr>]"

text \<open>
  Objects as \<open>ActivityForm.handleSubmit\<close> builds them: a new activity "Lunch" at 12:00 on
  2025-11-05 without location (the form's \<open>lat\<close> and \<open>lng\<close> start as \<open>null\<close>), and the
  activity \<open>a2\<close> edited to the date 2025-11-06, coming from 2025-11-05.
\<close>

definition lunch :: activity_form where
  "lunch =
     \<lparr>f_id = ''a1762300800000'', f_date = ''2025-11-05'', f_time = ''12:00'',
      f_icon = ''MapPin'', f_description = ''Lunch'', f_location = [],
      f_lat = Null, f_lng = Null, f_originalDate = None\<rparr>"

definition a2_moved :: activity_form where
  "a2_moved =
     \<lparr>f_id = ''a2'', f_date = ''2025-11-06'', f_time = ''12:00'',
      f_icon = ''MapPin'', f_description = a_description a2, f_location = a_location a2,
      f_lat = a_lat a2, f_lng = a_lng a2, f_originalDate = Some ''2025-11-05''\<rparr>"

text \<open>
  The activity \<open>a1\<close> as the form submits it after its date was changed to 2025-11-07.
  The form takes \<open>originalDate\<close> from the \<open>date\<close> field of the activity it edits, and \<open>a1\<close>
  has none. \<open>duplicated\<close> is the store after this save. \<open>a1_back\<close> is the activity then
  found on 2025-11-07, submitted with its date changed to 2025-11-05.
\<close>

definition a1_to_07 :: activity_form where
  "a1_to_07 =
     \<lparr>f_id = ''a1'', f_date = ''2025-11-07'', f_time = ''09:00'',
      f_icon = ''Plane'', f_description = a_description a1, f_location = a_location a1,
      f_lat = a_lat a1, f_lng = a_lng a1, f_originalDate = None\<rparr>"

definition duplicated :: "day list" where
  "duplicated = handleActivitySave a1_to_07 True initialItinerary"

definition a1_back :: activity_form where
  "a1_back =
     \<lparr>f_id = ''a1'', f_date = ''2025-11-05'', f_time = ''09:00'',
      f_icon = ''Plane'', f_description = a_description a1, f_location = a_location a1,
      f_lat = a_lat a1, f_lng = a_lng a1, f_originalDate = Some ''2025-11-07''\<rparr>"

text \<open>The dates of a store, each with the ids of the activities listed under it.\<close>

definition summary :: "day list \<Rightarrow> (string \<times> string list) list" where
  "summary st = map (\<lambda>day. (d_date day, map a_id (d_activities day))) st"

text \<open>
  The activities of the buckets whose date satisfies \<open>Q\<close>, in the order of the store;
  those listed under one date; those of the whole store.
\<close>

definition activitiesWhere :: "(string \<Rightarrow> bool) \<Rightarrow> day list \<Rightarrow> activity list" where
  "activitiesWhere Q st = concat (map d_activities (filter (\<lambda>day. Q (d_date day)) st))"

definition activitiesOn :: "string \<Rightarrow> day list \<Rightarrow> activity list" where
  "activitiesOn date st = activitiesWhere (\<lambda>d. d = date) st"

definition allActivities :: "day list \<Rightarrow> activity list" where
  "allActivities st = activitiesWhere (\<lambda>d. True) st"

text \<open>The invariants of the store that the claims speak of.\<close>

definition sortedByTime :: "day list \<Rightarrow> bool" where
  "sortedByTime st = list_all (\<lambda>day. sorted (map a_time (d_activities day))) st"

definition sortedByDate :: "day list \<Rightarrow> bool" where
  "sortedByDate st = sorted (map d_date st)"

definition noEmptyDay :: "day list \<Rightarrow> bool" where
  "noEmptyDay st = list_all (\<lambda>day. d_activities day \<noteq> []) st"

section \<open>Map view\<close>

text \<open>
  \<open>points\<close> of \<open>MapView\<close>, and the markers that \<open>updateMarkers\<close> puts on a loaded map
  for them: position and popup text.
\<close>

definition points :: "day list \<Rightarrow> activity list" where
  "points itinerary =
     concat (map (\<lambda>day. filter (\<lambda>act. truthy (a_lat act) \<and> truthy (a_lng act))
                          (d_activities day)) itinerary)"

record marker =
  m_position :: "coord \<times> coord"
  m_popup :: string

definition updateMarkers :: "activity list \<Rightarrow> marker list" where
  "updateMarkers currentPoints =
     map (\<lambda>act. \<lparr>m_position = (a_lat act, a_lng act),
                  m_popup = ''<b>'' @ a_description act @ ''</b><br>'' @ a_time act
                            @ '' - '' @ a_location act\<rparr>)
       (filter (\<lambda>act. truthy (a_lat act) \<and> truthy (a_lng act)) currentPoints)"

section \<open>Currency converter\<close>

datatype currency = TWD | USD | JPY | EUR | CNY






section \<open>Expense ledger\<close>

text \<open>Field \<open>f\<close> of an expense record is \<open>e_f\<close>.\<close>

record expense =
  e_id :: int
  e_date :: string
  e_category :: string
  e_description :: string
  e_amount :: rat
  e_currency :: currency
  e_inputAmount :: rat
  e_inputCurrency :: currency
  e_payer :: string

text \<open>\<open>initialExpenses\<close>, the ledger the application starts with.\<close>

definition expense1 :: expense where
  "expense1 =
     \<lparr>e_id = 1, e_date = ''2025-11-05'',
      e_category =
        [CHR 0xE4, CHR 0xBA, CHR 0xA4, CHR 0xE9, CHR 0x80, CHR 0x9A],
      e_description =
        [CHR 0xE9, CHR 0xAB, CHR 0x98, CHR 0xE9, CHR 0x90, CHR 0xB5, CHR 0xE7, CHR 0xA5,
        CHR 0xA8],
      e_amount = 850, e_currency = TWD, e_inputAmount = 850, e_inputCurrency = TWD,
      e_payer =
        [CHR 0xE6, CHR 0x88, CHR 0x91, CHR 0x20, CHR 0x28, CHR 0x4D, CHR 0x65, CHR 0x29]\<rparr>"

definition expense2 :: expense where
  "expense2 =
     \<lparr>e_id = 2, e_date = ''2025-11-05'',
      e_category =
        [CHR 0xE9, CHR 0xA4, CHR 0x90, CHR 0xE9, CHR 0xA3, CHR 0xB2],
      e_description =
        [CHR 0xE5, CHR 0x8D, CHR 0x88, CHR 0xE9, CHR 0xA4, CHR 0x90, CHR 0x20, CHR 0x2D,
        CHR 0x20, CHR 0xE7, CHR 0xBE, CHR 0xA9, CHR 0xE5, CHR 0xA4, CHR 0xA7, CHR 0xE5,
        CHR 0x88, CHR 0xA9, CHR 0xE9, CHR 0xBA, CHR 0xB5],
      e_amount = 320, e_currency = TWD, e_inputAmount = 320, e_inputCurrency = TWD,
      e_payer =
        ''John''\<rparr>"

definition expense3 :: expense where
  "expense3 =
     \<lparr>e_id = 3, e_date = ''2025-11-06'',
      e_category =
        [CHR 0xE4, CHR 0xBD, CHR 0x8F, CHR 0xE5, CHR 0xAE, CHR 0xBF],
      e_description =
        [CHR 0xE9, CHR 0xA3, CHR 0xAF, CHR 0xE5, CHR 0xBA, CHR 0x97, CHR 0xE4, CHR 0xB8,
        CHR 0x80, CHR 0xE6, CHR 0x99, CHR 0x9A, CHR 0x20, CHR 0x28, CHR 0x31, CHR 0x30,
        CHR 0x30, CHR 0x30, CHR 0x30, CHR 0x20, CHR 0x4A, CHR 0x50, CHR 0x59, CHR 0x29],
      e_amount = 2200, e_currency = TWD, e_inputAmount = 10000, e_inputCurrency = JPY,
      e_payer =
        [CHR 0xE6, CHR 0x88, CHR 0x91, CHR 0x20, CHR 0x28, CHR 0x4D, CHR 0x65, CHR 0x29]\<rparr>"

definition expense4 :: expense where
  "expense4 =
     \<lparr>e_id = 4, e_date = ''2025-11-06'',
      e_category =
        [CHR 0xE8, CHR 0xB3, CHR 0xBC, CHR 0xE7, CHR 0x89, CHR 0xA9],
      e_description =
        [CHR 0xE7, CHR 0xB4, CHR 0x80, CHR 0xE5, CHR 0xBF, CHR 0xB5, CHR 0xE5, CHR 0x93,
        CHR 0x81],
      e_amount = 650, e_currency = TWD, e_inputAmount = 650, e_inputCurrency = TWD,
      e_payer =
        ''Jane''\<rparr>"

definition initialExpenses :: "expense list" where
  "initialExpenses = [expense1, expense2, expense3, expense4]"










section \<open>Payer registry\<close>

text \<open>
  The state of \<open>App\<close> that the payer operations read or write. \<open>localStorage_payers\<close> is
  the list last written under the key \<open>payers\<close>.
\<close>

record app =
  app_expenses :: "expense list"
  app_itinerary :: "day list"
  app_payers :: "string list"
  app_filterPayer :: string
  app_localStorage_payers :: "string list option"

text \<open>
  \<open>DEFAULT_PAYERS\<close>, and the state of \<open>App\<close> on a first load, when nothing is stored
  under the key \<open>payers\<close>.
\<close>

definition DEFAULT_PAYERS :: "string list" where
  "DEFAULT_PAYERS =
     [CHR 0xE6, CHR 0x88, CHR 0x91, CHR 0x20, CHR 0x28, CHR 0x4D, CHR 0x65, CHR 0x29]
       # [''John'', ''Jane'', ''Max'']"

definition initialApp :: app where
  "initialApp =
     \<lparr>app_expenses = initialExpenses, app_itinerary = initialItinerary,
      app_payers = DEFAULT_PAYERS, app_filterPayer = ''All'',
      app_localStorage_payers = None\<rparr>"

definition savePayers :: "string list \<Rightarrow> app \<Rightarrow> app" where
  "savePayers newList s =
     (let s1 = s\<lparr>app_payers := newList, app_localStorage_payers := Some newList\<rparr>
      in if app_filterPayer s \<noteq> ''All'' \<and> app_filterPayer s \<notin> set newList
         then s1\<lparr>app_filterPayer := ''All''\<rparr> else s1)"

text \<open>The state \<open>editingPayer\<close> of \<open>PayerManagementModal\<close>; \<open>null\<close> is \<open>None\<close>.\<close>

record editing =
  originalName :: string
  newName :: string

text \<open>
  \<open>handleSaveEdit\<close> of \<open>PayerManagementModal\<close>. The result is the list passed to
  \<open>onSavePayers\<close>, if it is called, and the new value of \<open>editingPayer\<close>.
\<close>

definition handleSaveEdit ::
    "string list \<Rightarrow> editing option \<Rightarrow> string list option \<times> editing option" where
  "handleSaveEdit payerList editingPayer =
     (case editingPayer of
        None \<Rightarrow> (None, None)
      | Some ed \<Rightarrow>
          if newName ed = [] \<or> newName ed = originalName ed then (None, None)
          else
            (let newPayerName = trim (newName ed)
             in if newPayerName \<noteq> [] \<and> newPayerName \<notin> set payerList
                then (Some (map (\<lambda>p. if p = originalName ed then newPayerName else p)
                              payerList), None)
                else (None, Some ed)))"

text \<open>The modal is rendered with \<open>payers={payerList}\<close> and \<open>onSavePayers={savePayers}\<close>.\<close>

definition saveEdit :: "editing option \<Rightarrow> app \<Rightarrow> app" where
  "saveEdit editingPayer s =
     (case fst (handleSaveEdit (app_payers s) editingPayer) of
        None \<Rightarrow> s
      | Some newPayersList \<Rightarrow> savePayers newPayersList s)"

text \<open>
  \<open>handleDeletePayer\<close> of \<open>ExpenseForm\<close>, on the form's selected \<open>payer\<close> and the state of
  \<open>App\<close>; \<open>confirmed\<close> is the answer of \<open>window.confirm\<close>.
\<close>

definition handleDeletePayer :: "bool \<Rightarrow> string \<Rightarrow> string \<times> app \<Rightarrow> string \<times> app" where
  "handleDeletePayer confirmed target st =
     (case st of (payer, s) \<Rightarrow>
        if confirmed then
          (let newList = filter (\<lambda>p. p \<noteq> target) (app_payers s)
           in (if payer = target then (case newList of [] \<Rightarrow> [] | p # _ \<Rightarrow> p) else payer,
               savePayers newList s))
        else (payer, s))"

section \<open>Geocoding\<close>

text \<open>
  \<open>SIMULATED_GEO_DATA\<close>. Its keys are, in this order, the names of Taipei Main
  Station, Shilin Night Market, the National Palace Museum, Taipei 101, Taoyuan Airport,
  Xinyi District, Tokyo Station and Shibuya.
\<close>

definition SIMULATED_GEO_DATA :: "(string \<times> rat \<times> rat) list" where
  "SIMULATED_GEO_DATA =
     [([CHR 0xE5, CHR 0x8F, CHR 0xB0, CHR 0xE5, CHR 0x8C, CHR 0x97, CHR 0xE8, CHR 0xBB,
        CHR 0x8A, CHR 0xE7, CHR 0xAB, CHR 0x99],
        (250478 / 10000, 1215170 / 10000)),
      ([CHR 0xE5, CHR 0xA3, CHR 0xAB, CHR 0xE6, CHR 0x9E, CHR 0x97, CHR 0xE5, CHR 0xA4,
        CHR 0x9C, CHR 0xE5, CHR 0xB8, CHR 0x82],
        (250878 / 10000, 1215241 / 10000)),
      ([CHR 0xE6, CHR 0x95, CHR 0x85, CHR 0xE5, CHR 0xAE, CHR 0xAE, CHR 0xE5, CHR 0x8D,
        CHR 0x9A, CHR 0xE7, CHR 0x89, CHR 0xA9, CHR 0xE9, CHR 0x99, CHR 0xA2],
        (251024 / 10000, 1215485 / 10000)),
      ([CHR 0xE5, CHR 0x8F, CHR 0xB0, CHR 0xE5, CHR 0x8C, CHR 0x97, CHR 0x31, CHR 0x30,
        CHR 0x31],
        (250339 / 10000, 1215645 / 10000)),
      ([CHR 0xE6, CHR 0xA1, CHR 0x83, CHR 0xE5, CHR 0x9C, CHR 0x92, CHR 0xE6, CHR 0xA9,
        CHR 0x9F, CHR 0xE5, CHR 0xA0, CHR 0xB4],
        (250797 / 10000, 1212342 / 10000)),
      ([CHR 0xE4, CHR 0xBF, CHR 0xA1, CHR 0xE7, CHR 0xBE, CHR 0xA9, CHR 0xE5, CHR 0x8D,
        CHR 0x80],
        (250339 / 10000, 1215645 / 10000)),
      ([CHR 0xE6, CHR 0x9D, CHR 0xB1, CHR 0xE4, CHR 0xBA, CHR 0xAC, CHR 0xE8, CHR 0xBB,
        CHR 0x8A, CHR 0xE7, CHR 0xAB, CHR 0x99],
        (356812 / 10000, 1397671 / 10000)),
      ([CHR 0xE6, CHR 0xBE, CHR 0x80, CHR 0xE8, CHR 0xB0, CHR 0xB7],
        (356591 / 10000, 1397031 / 10000))]"

text \<open>
  \<open>SIMULATED_GEO_DATA\<close> is an object literal, so a property read on it also finds what
  it inherits from \<open>Object.prototype\<close>: functions, and the prototype itself under
  \<open>__proto__\<close>. These values are truthy and have no \<open>lat\<close> or \<open>lng\<close>.
\<close>

definition objectPrototypeKeys :: "string list" where
  "objectPrototypeKeys =
     [''constructor'', ''hasOwnProperty'', ''isPrototypeOf'', ''propertyIsEnumerable'',
      ''toLocaleString'', ''toString'', ''valueOf'', ''__proto__'', ''__defineGetter__'',
      ''__defineSetter__'', ''__lookupGetter__'', ''__lookupSetter__'']"

text \<open>The value of \<open>SIMULATED_GEO_DATA[key] || null\<close>.\<close>

datatype geo_result = Coords rat rat | Inherited | NoResult

text \<open>
  \<open>geocodeLocation\<close>: the delay of its timer in milliseconds and the value its promise
  resolves to. The promise never rejects.
\<close>

definition geocodeLocation :: "string \<Rightarrow> nat \<times> geo_result" where
  "geocodeLocation locationName =
     (800,
      case map_of SIMULATED_GEO_DATA (trim locationName) of
        Some (la, lo) \<Rightarrow> Coords la lo
      | None \<Rightarrow> if trim locationName \<in> set objectPrototypeKeys then Inherited else NoResult)"

text \<open>
  What \<open>handleGeocode\<close> awaits, in order: a call of \<open>geocodeLocation\<close> with its argument
  and the delay after which it resolves, or a back-off timer.
\<close>

datatype event = Lookup string nat | Backoff nat

definition maxRetries :: nat where
  "maxRetries = 3"

text \<open>
  The \<open>for\<close> loop of \<open>handleGeocode\<close> from iteration \<open>i\<close> on, with the current \<open>delay\<close>
  and \<open>result\<close> and the events so far.
\<close>

function retryLoop ::
    "string \<Rightarrow> nat \<Rightarrow> nat \<Rightarrow> geo_result \<Rightarrow> event list \<Rightarrow> geo_result \<times> event list" where
  "retryLoop location i delay result trace =
     (if i < maxRetries then
        (case geocodeLocation (trim location) of (ms, r) \<Rightarrow>
           if r \<noteq> NoResult then (r, trace @ [Lookup (trim location) ms])
           else if i < maxRetries - 1
             then retryLoop location (i + 1) (delay * 2) r
                    (trace @ [Lookup (trim location) ms, Backoff delay])
             else retryLoop location (i + 1) delay r (trace @ [Lookup (trim location) ms]))
      else (result, trace))"
  by pat_completeness auto
termination
  by (relation "measure (\<lambda>(location, i, delay, result, trace). maxRetries - i)") auto

declare retryLoop.simps [simp del]

text \<open>The state of \<open>ActivityForm\<close> that \<open>handleGeocode\<close> reads or writes.\<close>

datatype status = found | not_found | searching | none

record form_state =
  s_location :: string
  s_lat :: coord
  s_lng :: coord
  s_isGeocoding :: bool
  s_geocodeStatus :: "status option"

text \<open>\<open>handleGeocode\<close>: the state of the form when it has finished, and what it awaited.\<close>

definition handleGeocode :: "form_state \<Rightarrow> form_state \<times> event list" where
  "handleGeocode s =
     (if trim (s_location s) = [] then (s, [])
      else
        (case retryLoop (s_location s) 0 200 NoResult [] of (result, trace) \<Rightarrow>
           (case result of
              NoResult \<Rightarrow>
                s\<lparr>s_lat := Null, s_lng := Null, s_isGeocoding := False,
                  s_geocodeStatus := Some not_found\<rparr>
            | Coords la lo \<Rightarrow>
                s\<lparr>s_lat := Number la, s_lng := Number lo, s_isGeocoding := False,
                  s_geocodeStatus := Some found\<rparr>
            | Inherited \<Rightarrow>
                s\<lparr>s_lat := Undefined, s_lng := Undefined, s_isGeocoding := False,
                  s_geocodeStatus := Some found\<rparr>,
            trace)))"

text \<open>
  The form with a location that the table does not have, and with the name of Shilin
  Night Market, which it has.
\<close>

definition formXYZ :: form_state where
  "formXYZ =
     \<lparr>s_location = ''XYZ'', s_lat = Null, s_lng = Null, s_isGeocoding = False,
      s_geocodeStatus = None\<rparr>"

definition formShilin :: form_state where
  "formShilin =
     \<lparr>s_location =
        [CHR 0xE5, CHR 0xA3, CHR 0xAB, CHR 0xE6, CHR 0x9E, CHR 0x97, CHR 0xE5, CHR 0xA4,
        CHR 0x9C, CHR 0xE5, CHR 0xB8, CHR 0x82],
      s_lat = Null, s_lng = Null, s_isGeocoding = False, s_geocodeStatus = None\<rparr>"

section \<open>Facts about the array operations\<close>

lemma insert_cmp_insort_key:
  assumes "\<And>y. y \<in> set ys \<Longrightarrow> (SortCompare cmp x y \<le> 0) = (key x \<le> key y)"
  shows "insert_cmp cmp x ys = insort_key key x ys"
  using assms by (induction ys) auto

lemma set_insert_cmp: "set (insert_cmp cmp x ys) = insert x (set ys)"
  by (induction ys) auto

lemma set_array_sort: "set (array_sort cmp xs) = set xs"
  by (induction xs) (auto simp: set_insert_cmp)

lemma array_sort_sort_key:
  assumes "\<And>x y. x \<in> set xs \<Longrightarrow> y \<in> set xs \<Longrightarrow>
             (SortCompare cmp x y \<le> 0) = (key x \<le> key y)"
  shows "array_sort cmp xs = sort_key key xs"
  using assms
proof (induction xs)
  case Nil
  then show ?case by simp
next
  case (Cons x xs)
  have tl: "array_sort cmp xs = sort_key key xs"
    using Cons.prems by (intro Cons.IH) auto
  have "insert_cmp cmp x (sort_key key xs) = insort_key key x (sort_key key xs)"
    using Cons.prems by (intro insert_cmp_insort_key) auto
  with tl show ?case by simp
qed

lemma localeCompare_le: "(localeCompare a b \<le> 0) = (a \<le> b)"
  by (auto simp: localeCompare_def)

lemma array_sort_byDate: "array_sort byDate xs = sort_key d_date xs"
  by (rule array_sort_sort_key) (simp add: SortCompare_def byDate_def localeCompare_le)

lemma array_sort_byTime: "array_sort byTime xs = sort_key a_time xs"
  by (rule array_sort_sort_key) (simp add: SortCompare_def byTime_def localeCompare_le)

lemma findIndex_None: "(findIndex P xs = None) = (\<forall>x \<in> set xs. \<not> P x)"
  by (induction xs) auto

lemma findIndex_Some:
  "findIndex P xs = Some i \<Longrightarrow> i < length xs \<and> P (xs ! i) \<and> (\<forall>j < i. \<not> P (xs ! j))"
proof (induction xs arbitrary: i)
  case Nil
  then show ?case by simp
next
  case (Cons x xs)
  show ?case
  proof (cases "P x")
    case True
    with Cons.prems show ?thesis by simp
  next
    case False
    with Cons.prems obtain k where k: "findIndex P xs = Some k" "i = Suc k"
      by auto
    from Cons.IH [OF k(1)] False k(2) show ?thesis
      by (auto simp: less_Suc_eq_0_disj)
  qed
qed

section \<open>Preservation of the store invariants\<close>

lemma sortedByTime_removeFromDay:
  "sortedByTime prev \<Longrightarrow> sortedByTime (removeFromDay i date prev)"
  by (auto simp: sortedByTime_def removeFromDay_def list_all_iff
      intro!: sorted_filter [of a_time])

lemma map_date_removeFromDay:
  "map d_date (removeFromDay i date prev) =
     map d_date (filter (\<lambda>day. d_activities day \<noteq> [] \<and>
        (Some (d_date day) = date \<longrightarrow> filter (\<lambda>a. a_id a \<noteq> i) (d_activities day) \<noteq> [])) prev)"
  unfolding removeFromDay_def
  by (induction prev) auto

lemma sortedByDate_removeFromDay:
  "sortedByDate prev \<Longrightarrow> sortedByDate (removeFromDay i date prev)"
  unfolding sortedByDate_def map_date_removeFromDay
  by (rule sorted_filter)

lemma noEmptyDay_removeFromDay: "noEmptyDay (removeFromDay i date prev)"
  by (auto simp: noEmptyDay_def removeFromDay_def list_all_iff)

lemma sortedByTime_update:
  assumes "sortedByTime st" and "sorted (map a_time acts)"
  shows "sortedByTime (st[k := (st ! k)\<lparr>d_activities := acts\<rparr>])"
proof -
  have "set (st[k := (st ! k)\<lparr>d_activities := acts\<rparr>])
          \<subseteq> insert ((st ! k)\<lparr>d_activities := acts\<rparr>) (set st)"
    by (rule set_update_subset_insert)
  with assms show ?thesis
    by (auto simp: sortedByTime_def list_all_iff)
qed

lemma map_date_update:
  "map d_date (st[k := (st ! k)\<lparr>d_activities := acts\<rparr>]) = map d_date st"
  by (cases "k < length st") (simp_all add: map_update list_update_same_conv not_less list_update_beyond)

lemma sortedByDate_update:
  "sortedByDate st \<Longrightarrow> sortedByDate (st[k := (st ! k)\<lparr>d_activities := acts\<rparr>])"
  by (simp add: sortedByDate_def map_date_update)

lemma noEmptyDay_update:
  assumes "noEmptyDay st" and "acts \<noteq> []"
  shows "noEmptyDay (st[k := (st ! k)\<lparr>d_activities := acts\<rparr>])"
proof -
  have "set (st[k := (st ! k)\<lparr>d_activities := acts\<rparr>])
          \<subseteq> insert ((st ! k)\<lparr>d_activities := acts\<rparr>) (set st)"
    by (rule set_update_subset_insert)
  with assms show ?thesis
    by (auto simp: noEmptyDay_def list_all_iff)
qed

lemma array_sort_Nil_iff: "(array_sort cmp xs = []) = (xs = [])"
  using set_array_sort [of cmp xs] by (cases xs) auto

lemma sorted_array_sort_byTime: "sorted (map a_time (array_sort byTime xs))"
  by (simp add: array_sort_byTime)

lemma sortedByTime_newDay:
  "sortedByTime st \<Longrightarrow> sortedByTime (array_sort byDate (st @ [\<lparr>d_date = d, d_activities = [a]\<rparr>]))"
  by (simp add: sortedByTime_def list_all_iff set_array_sort)

lemma sortedByDate_newDay: "sortedByDate (array_sort byDate st)"
  by (simp add: sortedByDate_def array_sort_byDate)

lemma noEmptyDay_newDay:
  "noEmptyDay st \<Longrightarrow> noEmptyDay (array_sort byDate (st @ [\<lparr>d_date = d, d_activities = [a]\<rparr>]))"
  by (simp add: noEmptyDay_def list_all_iff set_array_sort)

text \<open>
  Whatever the branch, \<open>handleActivitySave\<close> ends in one of two ways: a new bucket is
  appended and the buckets are sorted by date, or the activities of one bucket are
  replaced by a list sorted by time. The state \<open>st\<close> this happens to is \<open>prev\<close>, or
  \<open>prev\<close> without the moved activity.
\<close>

lemma handleActivitySave_cases:
  obtains (newDay) st where
      "st = prev \<or> st = removeFromDay (f_id activity) (f_originalDate activity) prev"
      "handleActivitySave activity isEdit prev =
         array_sort byDate (st @ [\<lparr>d_date = f_date activity,
                                   d_activities = [withoutOriginalDate activity]\<rparr>])"
  | (update) st k acts where
      "st = prev \<or> st = removeFromDay (f_id activity) (f_originalDate activity) prev"
      "k < length st" "noEmptyDay prev \<Longrightarrow> acts \<noteq> []"
      "handleActivitySave activity isEdit prev =
         st[k := (st ! k)\<lparr>d_activities := array_sort byTime acts\<rparr>]"
proof (cases "isEdit \<and> f_originalDate activity \<noteq> None \<and> f_originalDate activity \<noteq> Some []
         \<and> f_originalDate activity \<noteq> Some (f_date activity)")
  case True
  define st where "st = removeFromDay (f_id activity) (f_originalDate activity) prev"
  show ?thesis
  proof (cases "findIndex (\<lambda>day. d_date day = f_date activity) st")
    case None
    with True show ?thesis
      by (intro newDay [of st]) (simp_all add: handleActivitySave_def st_def)
  next
    case (Some k)
    define replaced where "replaced = map (\<lambda>a. if a_id a = f_id activity
        then withoutOriginalDate activity else a) (d_activities (st ! k))"
    define added where "added = (if \<not> list_ex (\<lambda>a. a_id a = f_id activity) replaced
        then replaced @ [withoutOriginalDate activity] else replaced)"
    have k: "k < length st"
      using findIndex_Some [OF Some] by simp
    have "noEmptyDay st"
      by (simp add: st_def noEmptyDay_removeFromDay)
    with k have "d_activities (st ! k) \<noteq> []"
      by (simp add: noEmptyDay_def list_all_length)
    then have "added \<noteq> []"
      by (simp add: added_def replaced_def)
    moreover have "handleActivitySave activity isEdit prev =
        st[k := (st ! k)\<lparr>d_activities := array_sort byTime added\<rparr>]"
      using True Some
      by (simp add: handleActivitySave_def st_def [symmetric] Let_def
          added_def replaced_def)
    ultimately show ?thesis
      using k by (intro update [of st k added]) (simp_all add: st_def)
  qed
next
  case False
  show ?thesis
  proof (cases "findIndex (\<lambda>day. d_date day = f_date activity) prev")
    case None
    with False show ?thesis
      by (intro newDay [of prev]) (auto simp: handleActivitySave_def)
  next
    case (Some k)
    define acts where "acts = (if isEdit
        then map (\<lambda>a. if a_id a = f_id activity then withoutOriginalDate activity else a)
               (d_activities (prev ! k))
        else d_activities (prev ! k) @ [withoutOriginalDate activity])"
    have k: "k < length prev"
      using findIndex_Some [OF Some] by simp
    have "acts \<noteq> []" if "noEmptyDay prev"
      using that k by (simp add: acts_def noEmptyDay_def list_all_length)
    moreover have "handleActivitySave activity isEdit prev =
        prev[k := (prev ! k)\<lparr>d_activities := array_sort byTime acts\<rparr>]"
      using False Some
      by (auto simp: handleActivitySave_def Let_def acts_def)
    ultimately show ?thesis
      using k by (intro update [of prev k acts]) simp_all
  qed
qed

lemma sortedByTime_handleActivitySave:
  assumes "sortedByTime prev"
  shows "sortedByTime (handleActivitySave activity isEdit prev)"
  using handleActivitySave_cases [where prev = prev and activity = activity and isEdit = isEdit]
proof cases
  case (newDay st)
  from newDay(1) \<open>sortedByTime prev\<close> have "sortedByTime st"
    by (auto intro: sortedByTime_removeFromDay)
  then show ?thesis
    unfolding newDay(2) by (rule sortedByTime_newDay)
next
  case (update st k acts)
  from update(1) assms have "sortedByTime st"
    by (auto intro: sortedByTime_removeFromDay)
  then show ?thesis
    unfolding update(4) by (rule sortedByTime_update) (rule sorted_array_sort_byTime)
qed

lemma sortedByDate_handleActivitySave:
  assumes "sortedByDate prev"
  shows "sortedByDate (handleActivitySave activity isEdit prev)"
  using handleActivitySave_cases [where prev = prev and activity = activity and isEdit = isEdit]
proof cases
  case (newDay st)
  show ?thesis
    unfolding newDay(2) by (rule sortedByDate_newDay)
next
  case (update st k acts)
  from update(1) assms have "sortedByDate st"
    by (auto intro: sortedByDate_removeFromDay)
  then show ?thesis
    unfolding update(4) by (rule sortedByDate_update)
qed

lemma noEmptyDay_handleActivitySave:
  assumes "noEmptyDay prev"
  shows "noEmptyDay (handleActivitySave activity isEdit prev)"
  using handleActivitySave_cases [where prev = prev and activity = activity and isEdit = isEdit]
proof cases
  case (newDay st)
  from newDay(1) assms have "noEmptyDay st"
    by (auto intro: noEmptyDay_removeFromDay)
  then show ?thesis
    unfolding newDay(2) by (rule noEmptyDay_newDay)
next
  case (update st k acts)
  from update(1) assms have "noEmptyDay st"
    by (auto intro: noEmptyDay_removeFromDay)
  moreover have "array_sort byTime acts \<noteq> []"
    using update(3) [OF assms] by (simp add: array_sort_Nil_iff)
  ultimately show ?thesis
    unfolding update(4) by (rule noEmptyDay_update)
qed

section \<open>The claims about the itinerary store\<close>

text \<open>
  C2. If the activities of every day are sorted ascending by time (as strings), they
  still are after \<open>handleActivitySave\<close>, whatever the mode (add, edit in place, move to
  another date), and after \<open>handleActivityDelete\<close>.
\<close>

theorem C2_sorted_by_time_preserved:
  assumes "sortedByTime prev"
  shows "sortedByTime (handleActivitySave activity isEdit prev)
       \<and> sortedByTime (handleActivityDelete i date confirmed prev)"
  using assms
  by (simp add: sortedByTime_handleActivitySave handleActivityDelete_def
      sortedByTime_removeFromDay)

theorem C2_sorted_by_time_preserved_witness:
  "sortedByTime initialItinerary
   \<and> sortedByTime (handleActivitySave a2_moved True initialItinerary)
   \<and> sortedByTime (handleActivityDelete ''a1'' ''2025-11-05'' True initialItinerary)
   \<and> summary (handleActivitySave a2_moved True initialItinerary)
       = [(''2025-11-05'', [''a1'', ''a3'']), (''2025-11-06'', [''a4'', ''a2'', ''a5'', ''a6''])]"
proof -
  have h: "sortedByTime initialItinerary"
    by code_simp
  have "summary (handleActivitySave a2_moved True initialItinerary)
       = [(''2025-11-05'', [''a1'', ''a3'']), (''2025-11-06'', [''a4'', ''a2'', ''a5'', ''a6''])]"
    by code_simp
  with h C2_sorted_by_time_preserved [OF h, of a2_moved True "''a1''" "''2025-11-05''" True]
  show ?thesis by simp
qed

text \<open>
  C6. If the day buckets are ordered ascending by date string and none is empty, the
  same holds after \<open>handleActivitySave\<close> (add, edit, move) and after
  \<open>handleActivityDelete\<close>.
\<close>

theorem C6_days_ordered_and_pruned:
  assumes "sortedByDate prev" and "noEmptyDay prev"
  shows "sortedByDate (handleActivitySave activity isEdit prev)
       \<and> noEmptyDay (handleActivitySave activity isEdit prev)
       \<and> sortedByDate (handleActivityDelete i date confirmed prev)
       \<and> noEmptyDay (handleActivityDelete i date confirmed prev)"
  using assms
  by (simp add: sortedByDate_handleActivitySave noEmptyDay_handleActivitySave
      handleActivityDelete_def sortedByDate_removeFromDay noEmptyDay_removeFromDay)

theorem C6_days_ordered_and_pruned_witness:
  "sortedByDate initialItinerary \<and> noEmptyDay initialItinerary
   \<and> sortedByDate (handleActivitySave lunch False initialItinerary)
   \<and> noEmptyDay (handleActivitySave lunch False initialItinerary)
   \<and> sortedByDate (handleActivityDelete ''a1'' ''2025-11-05'' True initialItinerary)
   \<and> noEmptyDay (handleActivityDelete ''a1'' ''2025-11-05'' True initialItinerary)
   \<and> summary (handleActivitySave lunch False initialItinerary)
       = [(''2025-11-05'', [''a1'', ''a2'', ''a1762300800000'', ''a3'']),
          (''2025-11-06'', [''a4'', ''a5'', ''a6''])]"
proof -
  have h1: "sortedByDate initialItinerary"
    by code_simp
  have h2: "noEmptyDay initialItinerary"
    by code_simp
  have "summary (handleActivitySave lunch False initialItinerary)
       = [(''2025-11-05'', [''a1'', ''a2'', ''a1762300800000'', ''a3'']),
          (''2025-11-06'', [''a4'', ''a5'', ''a6''])]"
    by code_simp
  with h1 h2
    C6_days_ordered_and_pruned [OF h1 h2, of lunch False "''a1''" "''2025-11-05''" True]
  show ?thesis by simp
qed

section \<open>The claim about the map view\<close>

lemma truthy_iff: "truthy c = (\<exists>x. c = Number x \<and> x \<noteq> 0)"
  by (cases c) auto

lemma points_filter:
  "points itinerary =
     filter (\<lambda>act. truthy (a_lat act) \<and> truthy (a_lng act)) (concat (map d_activities itinerary))"
  by (simp add: points_def filter_concat comp_def)

lemma updateMarkers_points:
  "map m_position (updateMarkers (points itinerary)) =
     map (\<lambda>act. (a_lat act, a_lng act)) (points itinerary)"
  by (simp add: updateMarkers_def points_filter comp_def)

text \<open>
  C10. The points handed to the map are exactly the activities of the itinerary whose
  \<open>lat\<close> and \<open>lng\<close> are both truthy, in the order of the store. Each of them has two
  non-zero numbers as coordinates; an activity whose \<open>lat\<close> or \<open>lng\<close> is 0, \<open>null\<close> or
  \<open>undefined\<close> is not among them. \<open>updateMarkers\<close> places one marker per point, at the
  point's coordinates.
\<close>

theorem C10_map_points:
  "points itinerary =
     filter (\<lambda>act. truthy (a_lat act) \<and> truthy (a_lng act))
       (concat (map d_activities itinerary))
   \<and> (\<forall>act \<in> set (points itinerary).
         \<exists>x y. a_lat act = Number x \<and> x \<noteq> 0 \<and> a_lng act = Number y \<and> y \<noteq> 0)
   \<and> (\<forall>act. a_lat act \<in> {Number 0, Null, Undefined} \<or> a_lng act \<in> {Number 0, Null, Undefined}
         \<longrightarrow> act \<notin> set (points itinerary))
   \<and> map m_position (updateMarkers (points itinerary)) =
       map (\<lambda>act. (a_lat act, a_lng act)) (points itinerary)"
proof (intro conjI)
  show "points itinerary =
     filter (\<lambda>act. truthy (a_lat act) \<and> truthy (a_lng act))
       (concat (map d_activities itinerary))"
    by (rule points_filter)
  show "\<forall>act \<in> set (points itinerary).
         \<exists>x y. a_lat act = Number x \<and> x \<noteq> 0 \<and> a_lng act = Number y \<and> y \<noteq> 0"
    by (auto simp: points_filter truthy_iff)
  show "\<forall>act. a_lat act \<in> {Number 0, Null, Undefined} \<or> a_lng act \<in> {Number 0, Null, Undefined}
         \<longrightarrow> act \<notin> set (points itinerary)"
    by (auto simp: points_filter)
  show "map m_position (updateMarkers (points itinerary)) =
       map (\<lambda>act. (a_lat act, a_lng act)) (points itinerary)"
    by (rule updateMarkers_points)
qed

theorem C10_map_points_witness:
  "map a_id (concat (map d_activities (handleActivitySave lunch False initialItinerary)))
     = [''a1'', ''a2'', ''a1762300800000'', ''a3'', ''a4'', ''a5'', ''a6'']
   \<and> map a_id (points (handleActivitySave lunch False initialItinerary))
     = [''a1'', ''a2'', ''a3'', ''a4'', ''a5'', ''a6'']
   \<and> a_lat (withoutOriginalDate lunch) = Null
   \<and> withoutOriginalDate lunch \<notin> set (points (handleActivitySave lunch False initialItinerary))
   \<and> length (updateMarkers (points (handleActivitySave lunch False initialItinerary))) = 6"
proof -
  let ?st = "handleActivitySave lunch False initialItinerary"
  note c = C10_map_points [of ?st]
  have 1: "map a_id (concat (map d_activities ?st))
     = [''a1'', ''a2'', ''a1762300800000'', ''a3'', ''a4'', ''a5'', ''a6'']"
    by code_simp
  have 2: "map a_id (points ?st) = [''a1'', ''a2'', ''a3'', ''a4'', ''a5'', ''a6'']"
    by code_simp
  have 3: "a_lat (withoutOriginalDate lunch) = Null"
    by code_simp
  from c 3 have 4: "withoutOriginalDate lunch \<notin> set (points ?st)"
    by blast
  from c have m: "map m_position (updateMarkers (points ?st)) =
      map (\<lambda>act. (a_lat act, a_lng act)) (points ?st)"
    by (elim conjE)
  have "length (updateMarkers (points ?st)) = length (map a_id (points ?st))"
    using arg_cong [OF m, of length] by simp
  with 2 have 5: "length (updateMarkers (points ?st)) = 6"
    by simp
  from 1 2 3 4 5 show ?thesis by simp
qed

section \<open>The claims about the payer registry\<close>

lemma expenses_savePayers: "app_expenses (savePayers newList s) = app_expenses s"
  by (simp add: savePayers_def Let_def)

lemma payers_savePayers: "app_payers (savePayers newList s) = newList"
  by (simp add: savePayers_def Let_def)

text \<open>
  C9. Deleting a payer (\<open>handleDeletePayer\<close>, which saves the filtered registry through
  \<open>savePayers\<close>) leaves the list of expenses as it was, so no record changes, whether
  or not its payer is the deleted name. The registry loses exactly the entries equal to
  the name.
\<close>

theorem C9_delete_payer_keeps_expenses:
  "app_expenses (snd (handleDeletePayer confirmed target (payer, s))) = app_expenses s
   \<and> app_payers (snd (handleDeletePayer True target (payer, s)))
       = filter (\<lambda>p. p \<noteq> target) (app_payers s)"
  by (simp add: handleDeletePayer_def Let_def expenses_savePayers payers_savePayers)

theorem C9_delete_payer_keeps_expenses_witness:
  "app_payers (snd (handleDeletePayer True ''John'' (''John'', initialApp)))
     = [hd DEFAULT_PAYERS, ''Jane'', ''Max'']
   \<and> app_expenses (snd (handleDeletePayer True ''John'' (''John'', initialApp)))
     = initialExpenses
   \<and> e_payer (initialExpenses ! 1) = ''John''"
proof -
  have 1: "app_payers initialApp = DEFAULT_PAYERS" "app_expenses initialApp = initialExpenses"
    by (simp_all add: initialApp_def)
  have 2: "filter (\<lambda>p. p \<noteq> ''John'') DEFAULT_PAYERS = [hd DEFAULT_PAYERS, ''Jane'', ''Max'']"
    by code_simp
  have 3: "e_payer (initialExpenses ! 1) = ''John''"
    by code_simp
  from C9_delete_payer_keeps_expenses [of True "''John''" "''John''" initialApp] 1 2 3
  show ?thesis by simp
qed

lemma saveEdit_cases:
  "saveEdit (Some ed) s =
     (if newName ed = [] \<or> newName ed = originalName ed \<or> trim (newName ed) = []
         \<or> trim (newName ed) \<in> set (app_payers s)
      then s
      else savePayers (map (\<lambda>p. if p = originalName ed then trim (newName ed) else p)
                         (app_payers s)) s)"
  by (auto simp: saveEdit_def handleSaveEdit_def Let_def)

text \<open>
  C7, amended. Saving a rename changes nothing at all if the new name is empty, equal
  to the old name, empty after trimming, or after trimming already in the registry.
  Otherwise the registry becomes the old one with every entry equal to the old name
  replaced by the trimmed new name, the other entries and the order unchanged.
\<close>

theorem C7_rename_payer:
  "saveEdit None s = s
   \<and> (if newName ed = [] \<or> newName ed = originalName ed \<or> trim (newName ed) = []
         \<or> trim (newName ed) \<in> set (app_payers s)
      then saveEdit (Some ed) s = s
      else app_payers (saveEdit (Some ed) s)
             = map (\<lambda>p. if p = originalName ed then trim (newName ed) else p) (app_payers s))"
  by (simp add: saveEdit_cases payers_savePayers) (simp add: saveEdit_def handleSaveEdit_def)

theorem C7_rename_payer_witness:
  "saveEdit (Some \<lparr>originalName = ''John'', newName = ''Jane''\<rparr>) initialApp = initialApp
   \<and> app_payers (saveEdit (Some \<lparr>originalName = ''John'', newName = '' Jon ''\<rparr>) initialApp)
       = [hd DEFAULT_PAYERS, ''Jon'', ''Jane'', ''Max'']"
proof -
  have p: "app_payers initialApp = DEFAULT_PAYERS"
    by (simp add: initialApp_def)
  have t: "trim ''Jane'' = ''Jane''" "trim '' Jon '' = ''Jon''"
    by code_simp+
  have m: "''Jane'' \<in> set DEFAULT_PAYERS" "''Jon'' \<notin> set DEFAULT_PAYERS"
    by code_simp+
  have r: "map (\<lambda>p. if p = ''John'' then trim '' Jon '' else p) DEFAULT_PAYERS
      = [hd DEFAULT_PAYERS, ''Jon'', ''Jane'', ''Max'']"
    by code_simp
  from C7_rename_payer [of initialApp "\<lparr>originalName = ''John'', newName = ''Jane''\<rparr>"]
    C7_rename_payer [of initialApp "\<lparr>originalName = ''John'', newName = '' Jon ''\<rparr>"]
    p t m r
  show ?thesis by (simp cong: if_cong)
qed

text \<open>
  C7 as stated fails for a new name of white space only: it is not empty, differs from
  the old name, and its trimmed form is not in the registry, yet the entry is not
  replaced. \<open>handleSaveEdit\<close> saves only if \<open>newPayerName\<close> is truthy.
\<close>

theorem C7_blank_name_counterexample:
  "'' '' \<noteq> [] \<and> '' '' \<noteq> ''John'' \<and> trim '' '' = []
   \<and> trim '' '' \<notin> set (app_payers initialApp)
   \<and> app_payers initialApp ! 1 = ''John''
   \<and> app_payers (saveEdit (Some \<lparr>originalName = ''John'', newName = '' ''\<rparr>) initialApp) ! 1
       = ''John''
   \<and> ''John'' \<noteq> trim '' ''"
proof -
  have p: "app_payers initialApp = DEFAULT_PAYERS"
    by (simp add: initialApp_def)
  have t: "trim '' '' = []"
    by code_simp
  have m: "[] \<notin> set DEFAULT_PAYERS" "DEFAULT_PAYERS ! 1 = ''John''"
    by code_simp+
  have "saveEdit (Some \<lparr>originalName = ''John'', newName = '' ''\<rparr>) initialApp = initialApp"
    by (simp add: saveEdit_cases t)
  with p t m show ?thesis by simp
qed

section \<open>The claims about the expense ledger\<close>





section \<open>The claim about the currency converter\<close>






section \<open>The claim about adding an expense\<close>







section \<open>The claim about geocoding\<close>

lemma stripStart_clean:
  "find (\<lambda>w. w \<noteq> [] \<and> take (length w) (stripStart ws s) = w) ws = None"
proof (induction ws s rule: stripStart.induct)
  case (1 ws s)
  show ?case
  proof (cases "find (\<lambda>w. w \<noteq> [] \<and> take (length w) s = w) ws")
    case None
    then show ?thesis by (simp add: stripStart.simps [of ws s])
  next
    case (Some w)
    with "1.IH" [OF Some] show ?thesis by (simp add: stripStart.simps [of ws s])
  qed
qed

lemma stripStart_fixed:
  "find (\<lambda>w. w \<noteq> [] \<and> take (length w) s = w) ws = None \<Longrightarrow> stripStart ws s = s"
  by (simp add: stripStart.simps [of ws s])

lemma stripStart_idem: "stripStart ws (stripStart ws s) = stripStart ws s"
  by (rule stripStart_fixed) (rule stripStart_clean)

lemma stripStart_suffix: "\<exists>p. s = p @ stripStart ws s"
proof (induction ws s rule: stripStart.induct)
  case (1 ws s)
  show ?case
  proof (cases "find (\<lambda>w. w \<noteq> [] \<and> take (length w) s = w) ws")
    case None
    then show ?thesis by (simp add: stripStart.simps [of ws s])
  next
    case (Some w)
    from "1.IH" [OF Some] obtain p where "drop (length w) s = p @ stripStart ws (drop (length w) s)"
      by blast
    then have "s = (take (length w) s @ p) @ stripStart ws (drop (length w) s)"
      by (metis append.assoc append_take_drop_id)
    with Some show ?thesis
      by (simp only: stripStart.simps [of ws s] option.case) blast
  qed
qed

lemma trim_idem: "trim (trim s) = trim s"
proof -
  define t where "t = stripStart whiteSpace s"
  define u where "u = rev (stripStart (map rev whiteSpace) (rev t))"
  have u: "trim s = u"
    by (simp add: trim_def t_def u_def)
  obtain p where "rev t = p @ stripStart (map rev whiteSpace) (rev t)"
    using stripStart_suffix by blast
  then have "rev (rev t) = rev (p @ stripStart (map rev whiteSpace) (rev t))"
    by simp
  then have t: "t = u @ rev p"
    by (simp add: u_def)
  have clean_t: "find (\<lambda>w. w \<noteq> [] \<and> take (length w) t = w) whiteSpace = None"
    unfolding t_def by (rule stripStart_clean)
  have "find (\<lambda>w. w \<noteq> [] \<and> take (length w) u = w) whiteSpace = None"
    unfolding find_None_iff
  proof (intro notI, elim exE conjE)
    fix w assume w: "w \<in> set whiteSpace" "w \<noteq> []" "take (length w) u = w"
    from w(3) have "length (take (length w) u) = length w"
      by simp
    then have "length w \<le> length u"
      by simp
    with w(3) have "take (length w) t = w"
      by (simp add: t)
    with clean_t w(1,2) show False
      by (auto simp: find_None_iff)
  qed
  then have "stripStart whiteSpace u = u"
    by (rule stripStart_fixed)
  then have "trim u = rev (stripStart (map rev whiteSpace) (rev u))"
    by (simp add: trim_def)
  also have "\<dots> = u"
    by (simp add: u_def stripStart_idem)
  finally show ?thesis
    by (simp add: u)
qed

lemma retryLoop_no_result:
  assumes "geocodeLocation k = (ms, NoResult)" and "k = trim location"
  shows "retryLoop location 0 200 NoResult [] =
           (NoResult, [Lookup k ms, Backoff 200, Lookup k ms, Backoff 400, Lookup k ms])"
proof -
  have g: "geocodeLocation (trim location) = (ms, NoResult)"
    using assms by simp
  have 3: "retryLoop location (Suc (Suc (Suc 0))) d NoResult tr = (NoResult, tr)" for d tr
    by (simp add: retryLoop.simps [of location "Suc (Suc (Suc 0))"] maxRetries_def)
  have 2: "retryLoop location (Suc (Suc 0)) d NoResult tr = (NoResult, tr @ [Lookup k ms])"
    for d tr
    by (simp add: retryLoop.simps [of location "Suc (Suc 0)"] maxRetries_def g 3 assms(2))
  have 1: "retryLoop location (Suc 0) d NoResult tr
      = (NoResult, tr @ [Lookup k ms, Backoff d, Lookup k ms])"
    for d tr
    by (simp add: retryLoop.simps [of location "Suc 0"] maxRetries_def g 2 assms(2))
  show ?thesis
    by (simp add: retryLoop.simps [of location 0] maxRetries_def g 1 assms(2))
qed

lemma retryLoop_result:
  assumes "geocodeLocation k = (ms, r)" and "r \<noteq> NoResult" and "k = trim location"
  shows "retryLoop location 0 200 NoResult [] = (r, [Lookup k ms])"
  using assms by (simp add: retryLoop.simps [of location 0] maxRetries_def)

lemma geocodeLocation_trimmed:
  "geocodeLocation (trim location) =
     (800, case map_of SIMULATED_GEO_DATA (trim location) of
             Some (la, lo) \<Rightarrow> Coords la lo
           | None \<Rightarrow> if trim location \<in> set objectPrototypeKeys then Inherited else NoResult)"
  by (simp add: geocodeLocation_def trim_idem)

text \<open>
  A name that \<open>Object.prototype\<close> has as a property is not in the table, yet the lookup
  is truthy: the first attempt ends the loop and the status is \<open>found\<close>, without
  coordinates.
\<close>

lemma handleGeocode_inherited_key:
  "map_of SIMULATED_GEO_DATA ''toString'' = None
   \<and> handleGeocode (formXYZ\<lparr>s_location := ''toString''\<rparr>) =
       (formXYZ\<lparr>s_location := ''toString'', s_lat := Undefined, s_lng := Undefined,
          s_geocodeStatus := Some found\<rparr>,
        [Lookup ''toString'' 800])"
  by code_simp

text \<open>
  C5, amended. \<open>handleGeocode\<close> does nothing for a location that is blank after
  trimming. For a location whose trimmed name is not blank, not a key of the table and
  not a property name of \<open>Object.prototype\<close>, it calls \<open>geocodeLocation\<close> exactly three
  times, each call resolving after the simulated 800 ms, waits 200 ms between the first
  and the second call and 400 ms between the second and the third, waits for nothing
  after the third, and ends with status \<open>not_found\<close> and no coordinates. For a name in
  the table it makes one call, waits for no back-off and ends with status \<open>found\<close> and the
  coordinates of the table.
\<close>

theorem C5_geocode_retry:
  "(trim (s_location s) = [] \<longrightarrow> handleGeocode s = (s, []))
   \<and> (trim (s_location s) \<noteq> []
        \<and> map_of SIMULATED_GEO_DATA (trim (s_location s)) = None
        \<and> trim (s_location s) \<notin> set objectPrototypeKeys \<longrightarrow>
      handleGeocode s =
        (s\<lparr>s_lat := Null, s_lng := Null, s_isGeocoding := False,
           s_geocodeStatus := Some not_found\<rparr>,
         [Lookup (trim (s_location s)) 800, Backoff 200,
          Lookup (trim (s_location s)) 800, Backoff 400,
          Lookup (trim (s_location s)) 800]))
   \<and> (trim (s_location s) \<noteq> []
        \<and> map_of SIMULATED_GEO_DATA (trim (s_location s)) = Some (la, lo) \<longrightarrow>
      handleGeocode s =
        (s\<lparr>s_lat := Number la, s_lng := Number lo, s_isGeocoding := False,
           s_geocodeStatus := Some found\<rparr>,
         [Lookup (trim (s_location s)) 800]))"
proof (intro conjI impI)
  assume "trim (s_location s) = []"
  then show "handleGeocode s = (s, [])"
    by (simp add: handleGeocode_def)
next
  assume a: "trim (s_location s) \<noteq> []
        \<and> map_of SIMULATED_GEO_DATA (trim (s_location s)) = None
        \<and> trim (s_location s) \<notin> set objectPrototypeKeys"
  then have "geocodeLocation (trim (s_location s)) = (800, NoResult)"
    by (simp add: geocodeLocation_trimmed)
  from retryLoop_no_result [OF this refl] a
  show "handleGeocode s =
        (s\<lparr>s_lat := Null, s_lng := Null, s_isGeocoding := False,
           s_geocodeStatus := Some not_found\<rparr>,
         [Lookup (trim (s_location s)) 800, Backoff 200,
          Lookup (trim (s_location s)) 800, Backoff 400,
          Lookup (trim (s_location s)) 800])"
    by (simp add: handleGeocode_def)
next
  assume a: "trim (s_location s) \<noteq> []
        \<and> map_of SIMULATED_GEO_DATA (trim (s_location s)) = Some (la, lo)"
  then have "geocodeLocation (trim (s_location s)) = (800, Coords la lo)"
    by (simp add: geocodeLocation_trimmed)
  from retryLoop_result [OF this _ refl] a
  show "handleGeocode s =
        (s\<lparr>s_lat := Number la, s_lng := Number lo, s_isGeocoding := False,
           s_geocodeStatus := Some found\<rparr>,
         [Lookup (trim (s_location s)) 800])"
    by (simp add: handleGeocode_def)
qed

theorem C5_geocode_retry_witness:
  "trim (s_location formXYZ) = ''XYZ''
   \<and> map_of SIMULATED_GEO_DATA ''XYZ'' = None \<and> ''XYZ'' \<notin> set objectPrototypeKeys
   \<and> handleGeocode formXYZ =
       (formXYZ\<lparr>s_geocodeStatus := Some not_found\<rparr>,
        [Lookup ''XYZ'' 800, Backoff 200, Lookup ''XYZ'' 800, Backoff 400, Lookup ''XYZ'' 800])
   \<and> trim (s_location formShilin) = s_location formShilin
   \<and> map_of SIMULATED_GEO_DATA (s_location formShilin) = Some (250878 / 10000, 1215241 / 10000)
   \<and> handleGeocode formShilin =
       (formShilin\<lparr>s_lat := Number (250878 / 10000), s_lng := Number (1215241 / 10000),
          s_geocodeStatus := Some found\<rparr>,
        [Lookup (s_location formShilin) 800])"
proof -
  have x: "trim (s_location formXYZ) = ''XYZ''" "map_of SIMULATED_GEO_DATA ''XYZ'' = None"
    "''XYZ'' \<notin> set objectPrototypeKeys"
    by code_simp+
  have y: "trim (s_location formShilin) = s_location formShilin"
    "s_location formShilin \<noteq> []"
    "map_of SIMULATED_GEO_DATA (s_location formShilin) = Some (250878 / 10000, 1215241 / 10000)"
    by code_simp+
  have 1: "handleGeocode formXYZ =
       (formXYZ\<lparr>s_geocodeStatus := Some not_found\<rparr>,
        [Lookup ''XYZ'' 800, Backoff 200, Lookup ''XYZ'' 800, Backoff 400, Lookup ''XYZ'' 800])"
    using C5_geocode_retry [of formXYZ] x by (simp add: formXYZ_def)
  have 2: "handleGeocode formShilin =
       (formShilin\<lparr>s_lat := Number (250878 / 10000), s_lng := Number (1215241 / 10000),
          s_geocodeStatus := Some found\<rparr>,
        [Lookup (s_location formShilin) 800])"
    using C5_geocode_retry [of formShilin "250878 / 10000" "1215241 / 10000"] y
    by (simp add: formShilin_def)
  from x y 1 2 show ?thesis by simp
qed

text \<open>
  C5 as stated fails for the unknown location \<open>XYZ\<close>: the back-off timers are 200 ms and
  400 ms only. The loop skips the wait after the last attempt (\<open>i < maxRetries - 1\<close>),
  so no 800 ms wait follows the third one.
\<close>

theorem C5_no_wait_after_third_counterexample:
  "map_of SIMULATED_GEO_DATA ''XYZ'' = None
   \<and> snd (handleGeocode formXYZ) =
       [Lookup ''XYZ'' 800, Backoff 200, Lookup ''XYZ'' 800, Backoff 400, Lookup ''XYZ'' 800]
   \<and> Backoff 800 \<notin> set (snd (handleGeocode formXYZ))
   \<and> last (snd (handleGeocode formXYZ)) = Lookup ''XYZ'' 800
   \<and> s_geocodeStatus (fst (handleGeocode formXYZ)) = Some not_found"
  by code_simp

section \<open>The claim about moving an activity\<close>

lemma activitiesWhere_Nil [simp]: "activitiesWhere Q [] = []"
  by (simp add: activitiesWhere_def)

lemma activitiesWhere_Cons [simp]:
  "activitiesWhere Q (day # st) =
     (if Q (d_date day) then d_activities day @ activitiesWhere Q st else activitiesWhere Q st)"
  by (simp add: activitiesWhere_def)

lemma activitiesWhere_append [simp]:
  "activitiesWhere Q (st @ st') = activitiesWhere Q st @ activitiesWhere Q st'"
  by (simp add: activitiesWhere_def)

lemma set_activitiesWhere:
  "set (activitiesWhere Q st) = {a. \<exists>day \<in> set st. Q (d_date day) \<and> a \<in> set (d_activities day)}"
  by (induction st) auto

lemma mset_activitiesWhere_split:
  "mset (activitiesWhere (\<lambda>d. True) st) =
     mset (activitiesWhere Q st) + mset (activitiesWhere (\<lambda>d. \<not> Q d) st)"
  by (induction st) auto

lemma mset_activitiesWhere_insort:
  "mset (activitiesWhere Q (insort_key d_date day st)) = mset (activitiesWhere Q (day # st))"
  by (induction st) auto

lemma mset_activitiesWhere_sort:
  "mset (activitiesWhere Q (sort_key d_date st)) = mset (activitiesWhere Q st)"
  by (induction st) (auto simp: mset_activitiesWhere_insort)

lemma mset_activitiesWhere_update:
  assumes "k < length st"
  shows "mset (activitiesWhere Q (st[k := (st ! k)\<lparr>d_activities := acts\<rparr>])) + 
           (if Q (d_date (st ! k)) then mset (d_activities (st ! k)) else {#})
         = mset (activitiesWhere Q st) + (if Q (d_date (st ! k)) then mset acts else {#})"
  using assms
proof (induction st arbitrary: k)
  case Nil
  then show ?case by simp
next
  case (Cons day st)
  show ?case
  proof (cases k)
    case 0
    then show ?thesis by simp
  next
    case (Suc j)
    with Cons.prems have "j < length st" by simp
    from Cons.IH [OF this] Suc show ?thesis
      by (auto simp: ac_simps)
  qed
qed

lemma activitiesWhere_removeFromDay:
  "activitiesWhere Q (removeFromDay i (Some D1) prev) =
     concat (map (\<lambda>day. if d_date day = D1
                         then filter (\<lambda>a. a_id a \<noteq> i) (d_activities day)
                         else d_activities day)
               (filter (\<lambda>day. Q (d_date day)) prev))"
  unfolding removeFromDay_def
  by (induction prev) auto

lemma activitiesOn_removeFromDay_same:
  "activitiesOn D1 (removeFromDay i (Some D1) prev) =
     filter (\<lambda>a. a_id a \<noteq> i) (activitiesOn D1 prev)"
  unfolding activitiesOn_def activitiesWhere_removeFromDay
  by (induction prev) auto

lemma activitiesOn_removeFromDay_other:
  "d \<noteq> D1 \<Longrightarrow> activitiesOn d (removeFromDay i (Some D1) prev) = activitiesOn d prev"
  unfolding activitiesOn_def activitiesWhere_removeFromDay
  by (induction prev) auto

lemma allActivities_removeFromDay:
  assumes "\<forall>a \<in> set (activitiesWhere (\<lambda>d. d \<noteq> D1) prev). a_id a \<noteq> i"
  shows "allActivities (removeFromDay i (Some D1) prev) =
           filter (\<lambda>a. a_id a \<noteq> i) (allActivities prev)"
  using assms
  unfolding allActivities_def activitiesWhere_removeFromDay
  by (induction prev) (auto simp: filter_id_conv)

lemma dates_removeFromDay:
  "(D1 \<in> set (map d_date (removeFromDay i (Some D1) prev))) =
     (\<exists>a \<in> set (activitiesOn D1 prev). a_id a \<noteq> i)"
  unfolding map_date_removeFromDay activitiesOn_def set_activitiesWhere
  by (auto simp: filter_empty_conv)

text \<open>An activity that occurs once in the store and is listed under a date occurs
  under no other date.\<close>

lemma only_on_original_date:
  assumes "length (filter (\<lambda>a. a_id a = i) (allActivities prev)) = 1"
    and "list_ex (\<lambda>a. a_id a = i) (activitiesOn D1 prev)"
  shows "\<forall>a \<in> set (activitiesWhere (\<lambda>d. d \<noteq> D1) prev). a_id a \<noteq> i"
proof -
  let ?P = "\<lambda>a. a_id a = i"
  have "mset (allActivities prev) =
      mset (activitiesOn D1 prev) + mset (activitiesWhere (\<lambda>d. d \<noteq> D1) prev)"
    unfolding allActivities_def activitiesOn_def
    by (rule mset_activitiesWhere_split)
  then have "mset (filter ?P (allActivities prev)) =
      mset (filter ?P (activitiesOn D1 prev))
      + mset (filter ?P (activitiesWhere (\<lambda>d. d \<noteq> D1) prev))"
    by simp
  then have "length (filter ?P (allActivities prev)) =
      length (filter ?P (activitiesOn D1 prev))
      + length (filter ?P (activitiesWhere (\<lambda>d. d \<noteq> D1) prev))"
    by (metis length_append mset_append size_mset)
  moreover from assms(2) have "filter ?P (activitiesOn D1 prev) \<noteq> []"
    by (auto simp: list_ex_iff filter_empty_conv)
  then have "length (filter ?P (activitiesOn D1 prev)) \<ge> 1"
    by (cases "filter ?P (activitiesOn D1 prev)") simp_all
  ultimately have "length (filter ?P (activitiesWhere (\<lambda>d. d \<noteq> D1) prev)) = 0"
    using assms(1) by linarith
  then show ?thesis
    by (auto simp: filter_empty_conv)
qed

text \<open>The second step of the date-move branch, on a state \<open>st\<close> that does not hold the
  moved activity.\<close>

lemma upsert_moved:
  assumes none: "\<forall>a \<in> set (allActivities st). a_id a \<noteq> f_id activity"
    and res: "res = (case findIndex (\<lambda>day. d_date day = f_date activity) st of
              None \<Rightarrow>
                array_sort byDate
                  (st @ [\<lparr>d_date = f_date activity,
                          d_activities = [withoutOriginalDate activity]\<rparr>])
            | Some newDayIndex \<Rightarrow>
                (let replaced = map (\<lambda>a. if a_id a = f_id activity
                                          then withoutOriginalDate activity else a)
                                  (d_activities (st ! newDayIndex));
                     added = (if \<not> list_ex (\<lambda>a. a_id a = f_id activity) replaced
                              then replaced @ [withoutOriginalDate activity] else replaced)
                 in st[newDayIndex :=
                      (st ! newDayIndex)\<lparr>d_activities := array_sort byTime added\<rparr>]))"
  shows "mset (activitiesWhere Q res) =
           mset (activitiesWhere Q st)
           + (if Q (f_date activity) then {#withoutOriginalDate activity#} else {#})"
    and "set (map d_date res) = insert (f_date activity) (set (map d_date st))"
proof -
  let ?new = "withoutOriginalDate activity"
  let ?D2 = "f_date activity"
  have goal: "mset (activitiesWhere Q res) =
           mset (activitiesWhere Q st) + (if Q ?D2 then {#?new#} else {#})
         \<and> set (map d_date res) = insert ?D2 (set (map d_date st))"
  proof (cases "findIndex (\<lambda>day. d_date day = ?D2) st")
    case None
    then have r: "res = sort_key d_date (st @ [\<lparr>d_date = ?D2, d_activities = [?new]\<rparr>])"
      using res by (simp add: array_sort_byDate)
    show ?thesis
      unfolding r by (simp add: mset_activitiesWhere_sort)
  next
    case (Some k)
    from findIndex_Some [OF Some] have k: "k < length st" "d_date (st ! k) = ?D2"
      by simp_all
    let ?acts = "d_activities (st ! k)"
    from k(1) have "set ?acts \<subseteq> set (allActivities st)"
      by (auto simp: allActivities_def set_activitiesWhere)
    with none have no: "\<forall>a \<in> set ?acts. a_id a \<noteq> f_id activity"
      by blast
    then have rep: "map (\<lambda>a. if a_id a = f_id activity then ?new else a) ?acts = ?acts"
      by (simp add: map_idI)
    from no have ex: "\<not> list_ex (\<lambda>a. a_id a = f_id activity) ?acts"
      by (simp add: list_ex_iff)
    have r: "res = st[k := (st ! k)\<lparr>d_activities := sort_key a_time (?acts @ [?new])\<rparr>]"
      using res Some by (simp add: Let_def rep ex array_sort_byTime)
    have "mset (activitiesWhere Q res) + (if Q ?D2 then mset ?acts else {#}) =
        mset (activitiesWhere Q st)
        + (if Q ?D2 then mset (sort_key a_time (?acts @ [?new])) else {#})"
      using mset_activitiesWhere_update [OF k(1), of Q "sort_key a_time (?acts @ [?new])"]
      by (simp add: r k(2))
    then have "mset (activitiesWhere Q res) =
        mset (activitiesWhere Q st) + (if Q ?D2 then {#?new#} else {#})"
      by (auto split: if_splits)
    moreover have "map d_date res = map d_date st"
      unfolding r by (rule map_date_update)
    moreover from k have "?D2 \<in> set (map d_date st)"
      by (metis length_map nth_map nth_mem)
    ultimately show ?thesis
      by auto
  qed
  from goal show "mset (activitiesWhere Q res) =
           mset (activitiesWhere Q st) + (if Q ?D2 then {#?new#} else {#})"
    by simp
  from goal show "set (map d_date res) = insert ?D2 (set (map d_date st))"
    by simp
qed


lemma mset_single_list: "mset xs = {#x#} \<Longrightarrow> xs = [x]"
  by (cases xs) auto

text \<open>
  C1, amended. Let \<open>handleActivitySave\<close> be called in edit mode with \<open>originalDate\<close> = D1
  and \<open>date\<close> = D2, where D1 is not empty and differs from D2, on a store in which
  exactly one activity has the given id and a bucket dated D1 lists it. Then in the
  resulting store no bucket dated D1 lists an activity with that id; a bucket dated D1
  remains exactly if D1 listed some other activity; the buckets dated D2 list exactly one
  activity with that id, which is the submitted one, and so does the whole store; and
  the total number of activities is unchanged.
\<close>

theorem C1_move_activity:
  assumes orig: "f_originalDate activity = Some D1" and ne: "D1 \<noteq> []"
    and diff: "D1 \<noteq> f_date activity"
    and once: "length (filter (\<lambda>a. a_id a = f_id activity) (allActivities prev)) = 1"
    and listed: "list_ex (\<lambda>a. a_id a = f_id activity) (activitiesOn D1 prev)"
  shows "\<not> list_ex (\<lambda>a. a_id a = f_id activity)
            (activitiesOn D1 (handleActivitySave activity True prev))
       \<and> (D1 \<in> set (map d_date (handleActivitySave activity True prev)))
           = (\<exists>a \<in> set (activitiesOn D1 prev). a_id a \<noteq> f_id activity)
       \<and> filter (\<lambda>a. a_id a = f_id activity)
           (activitiesOn (f_date activity) (handleActivitySave activity True prev))
           = [withoutOriginalDate activity]
       \<and> filter (\<lambda>a. a_id a = f_id activity)
           (allActivities (handleActivitySave activity True prev))
           = [withoutOriginalDate activity]
       \<and> length (allActivities (handleActivitySave activity True prev))
           = length (allActivities prev)"
proof -
  let ?i = "f_id activity"
  let ?D2 = "f_date activity"
  let ?new = "withoutOriginalDate activity"
  let ?P = "\<lambda>a. a_id a = ?i"
  let ?res = "handleActivitySave activity True prev"
  define st where "st = removeFromDay ?i (Some D1) prev"
  have new_id: "a_id ?new = ?i"
    by (simp add: withoutOriginalDate_def)
  have elsewhere: "\<forall>a \<in> set (activitiesWhere (\<lambda>d. d \<noteq> D1) prev). a_id a \<noteq> ?i"
    using once listed by (rule only_on_original_date)
  have all_st: "allActivities st = filter (\<lambda>a. a_id a \<noteq> ?i) (allActivities prev)"
    unfolding st_def using elsewhere by (rule allActivities_removeFromDay)
  then have none: "\<forall>a \<in> set (allActivities st). a_id a \<noteq> ?i"
    by simp
  have res: "?res = (case findIndex (\<lambda>day. d_date day = ?D2) st of
              None \<Rightarrow>
                array_sort byDate (st @ [\<lparr>d_date = ?D2, d_activities = [?new]\<rparr>])
            | Some newDayIndex \<Rightarrow>
                (let replaced = map (\<lambda>a. if a_id a = ?i then ?new else a)
                                  (d_activities (st ! newDayIndex));
                     added = (if \<not> list_ex (\<lambda>a. a_id a = ?i) replaced
                              then replaced @ [?new] else replaced)
                 in st[newDayIndex :=
                      (st ! newDayIndex)\<lparr>d_activities := array_sort byTime added\<rparr>]))"
    unfolding st_def using orig ne diff by (simp add: handleActivitySave_def Let_def)
  note up = upsert_moved [OF none res]

  have on_D1: "mset (activitiesOn D1 ?res) = mset (filter (\<lambda>a. a_id a \<noteq> ?i) (activitiesOn D1 prev))"
    using up(1) [of "\<lambda>d. d = D1"] diff
    by (simp add: activitiesOn_def [symmetric] st_def activitiesOn_removeFromDay_same)
  have "set (activitiesOn D1 ?res) = set (filter (\<lambda>a. a_id a \<noteq> ?i) (activitiesOn D1 prev))"
    using on_D1 by (rule mset_eq_setD)
  then have c1: "\<not> list_ex ?P (activitiesOn D1 ?res)"
    by (simp add: list_ex_iff)

  have "(D1 \<in> set (map d_date ?res)) = (D1 \<in> set (map d_date st))"
    using up(2) diff by auto
  then have c2: "(D1 \<in> set (map d_date ?res)) = (\<exists>a \<in> set (activitiesOn D1 prev). a_id a \<noteq> ?i)"
    unfolding st_def by (simp only: dates_removeFromDay)

  have on_D2: "mset (activitiesOn ?D2 ?res) = mset (activitiesOn ?D2 prev) + {#?new#}"
    using up(1) [of "\<lambda>d. d = ?D2"] diff
    by (simp add: activitiesOn_def [symmetric] st_def activitiesOn_removeFromDay_other)
  have "set (activitiesOn ?D2 prev) \<subseteq> set (activitiesWhere (\<lambda>d. d \<noteq> D1) prev)"
    using diff by (auto simp: activitiesOn_def set_activitiesWhere)
  with elsewhere have "filter_mset ?P (mset (activitiesOn ?D2 prev)) = {#}"
    by auto
  then have "filter_mset ?P (mset (activitiesOn ?D2 ?res)) = {#?new#}"
    unfolding on_D2 by (simp add: new_id)
  then have "mset (filter ?P (activitiesOn ?D2 ?res)) = {#?new#}"
    by (simp only: mset_filter)
  then have c3: "filter ?P (activitiesOn ?D2 ?res) = [?new]"
    by (rule mset_single_list)

  have all: "mset (allActivities ?res) = mset (allActivities st) + {#?new#}"
    using up(1) [of "\<lambda>d. True"] by (simp add: allActivities_def)
  from none have "filter_mset ?P (mset (allActivities st)) = {#}"
    by auto
  then have "filter_mset ?P (mset (allActivities ?res)) = {#?new#}"
    unfolding all by (simp add: new_id)
  then have "mset (filter ?P (allActivities ?res)) = {#?new#}"
    by (simp only: mset_filter)
  then have c4: "filter ?P (allActivities ?res) = [?new]"
    by (rule mset_single_list)

  have "length (allActivities ?res) = length (allActivities st) + 1"
    using arg_cong [OF all, of size] by simp
  moreover have "length (allActivities st) + length (filter ?P (allActivities prev))
      = length (allActivities prev)"
    unfolding all_st using sum_length_filter_compl [of ?P "allActivities prev"]
    by (simp add: add.commute)
  ultimately have c5: "length (allActivities ?res) = length (allActivities prev)"
    using once by simp

  from c1 c2 c3 c4 c5 show ?thesis by blast
qed

theorem C1_move_activity_witness:
  "f_originalDate a2_moved = Some ''2025-11-05'' \<and> ''2025-11-05'' \<noteq> f_date a2_moved
   \<and> length (filter (\<lambda>a. a_id a = ''a2'') (allActivities initialItinerary)) = 1
   \<and> list_ex (\<lambda>a. a_id a = ''a2'') (activitiesOn ''2025-11-05'' initialItinerary)
   \<and> summary (handleActivitySave a2_moved True initialItinerary)
       = [(''2025-11-05'', [''a1'', ''a3'']), (''2025-11-06'', [''a4'', ''a2'', ''a5'', ''a6''])]
   \<and> \<not> list_ex (\<lambda>a. a_id a = ''a2'')
         (activitiesOn ''2025-11-05'' (handleActivitySave a2_moved True initialItinerary))
   \<and> filter (\<lambda>a. a_id a = ''a2'')
         (activitiesOn ''2025-11-06'' (handleActivitySave a2_moved True initialItinerary))
       = [withoutOriginalDate a2_moved]
   \<and> length (allActivities (handleActivitySave a2_moved True initialItinerary)) = 6"
proof -
  have f: "f_originalDate a2_moved = Some ''2025-11-05''" "f_id a2_moved = ''a2''"
    "f_date a2_moved = ''2025-11-06''"
    by (simp_all add: a2_moved_def)
  have h1: "length (filter (\<lambda>a. a_id a = f_id a2_moved) (allActivities initialItinerary)) = 1"
    by code_simp
  have h2: "list_ex (\<lambda>a. a_id a = f_id a2_moved) (activitiesOn ''2025-11-05'' initialItinerary)"
    by code_simp
  have n: "length (allActivities initialItinerary) = 6"
    by code_simp
  have r: "summary (handleActivitySave a2_moved True initialItinerary)
       = [(''2025-11-05'', [''a1'', ''a3'']), (''2025-11-06'', [''a4'', ''a2'', ''a5'', ''a6''])]"
    by code_simp
  from C1_move_activity [OF f(1) _ _ h1 h2] f h1 h2 n r
  show ?thesis by simp
qed

text \<open>
  C1 as stated fails on the store \<open>duplicated\<close>, in which 2025-11-05 and 2025-11-07 both
  list an activity with id \<open>a1\<close>: moving the one of 2025-11-07 to 2025-11-05 replaces the
  one that is there, and the store goes from seven activities to six.
\<close>

theorem C1_total_changes_counterexample:
  "summary duplicated
     = [(''2025-11-05'', [''a1'', ''a2'', ''a3'']), (''2025-11-06'', [''a4'', ''a5'', ''a6'']),
        (''2025-11-07'', [''a1''])]
   \<and> f_id a1_back = ''a1'' \<and> f_originalDate a1_back = Some ''2025-11-07''
   \<and> f_date a1_back = ''2025-11-05''
   \<and> summary (handleActivitySave a1_back True duplicated)
       = [(''2025-11-05'', [''a1'', ''a2'', ''a3'']), (''2025-11-06'', [''a4'', ''a5'', ''a6''])]
   \<and> length (allActivities duplicated) = 7
   \<and> length (allActivities (handleActivitySave a1_back True duplicated)) = 6"
  by code_simp

end
